theory Spec2Isabelle
  imports Complex_Main "HOL-Library.Word" "HOL-Library.Sublist"
begin

unbundle bit_operations_syntax

section \<open>Python values used by the compression engine\<close>

text \<open>
  The engine is the class \<open>AdvancedCompressionEngine\<close> of \<open>arch/builder.py\<close>.
  A \<open>bytes\<close> object is a list of 8-bit words, a \<open>str\<close> is a \<open>string\<close>, Python's
  unbounded integers are \<open>nat\<close> where they cannot be negative and \<open>int\<close> otherwise.
  Every exception the engine can raise is a value of \<open>exn\<close>; a function that can raise
  returns \<open>exn + 'a\<close> with \<open>Inl\<close> for the exception.
\<close>

type_synonym byte = "8 word"
type_synonym bytes = "byte list"

datatype exn =
    ValueError string
  | KeyError
  | IndexError
  | OverflowError
  | ZeroDivisionError
  | BackendError

text \<open>\<open>xs[i]\<close> for a non-negative index: IndexError out of range.\<close>

definition py_index :: "'a list \<Rightarrow> nat \<Rightarrow> exn + 'a" where
  "py_index xs i = (if i < length xs then Inr (xs ! i) else Inl IndexError)"

text \<open>\<open>s.startswith(p)\<close> and \<open>s.endswith(p)\<close>.\<close>

definition startswith :: "string \<Rightarrow> string \<Rightarrow> bool" where
  "startswith s p = (take (length p) s = p)"

definition endswith :: "string \<Rightarrow> string \<Rightarrow> bool" where
  "endswith s p = (length p \<le> length s \<and> drop (length s - length p) s = p)"

text \<open>
  \<open>s.split(sep, maxsplit)\<close> for a one-character separator: at most \<open>maxsplit\<close> cuts,
  from the left; the rest of the string is the last part, separators included.
  \<open>s.split(sep)\<close> cuts at every separator; a string has at most \<open>length s\<close> of them.
\<close>

fun split_max :: "char \<Rightarrow> nat \<Rightarrow> string \<Rightarrow> string list" where
  "split_max sep 0 s = [s]"
| "split_max sep (Suc n) s =
     (if sep \<in> set s
      then takeWhile (\<lambda>c. c \<noteq> sep) s # split_max sep n (tl (dropWhile (\<lambda>c. c \<noteq> sep) s))
      else [s])"

definition py_split :: "char \<Rightarrow> string \<Rightarrow> string list" where
  "py_split sep s = split_max sep (length s) s"

text \<open>\<open>sep.join(parts)\<close>.\<close>

fun join :: "string \<Rightarrow> string list \<Rightarrow> string" where
  "join sep [] = []"
| "join sep [x] = x"
| "join sep (x # y # ys) = x @ sep @ join sep (y # ys)"

text \<open>\<open>str(n)\<close> of a non-negative integer, as an f-string formats it.\<close>

fun str_nat :: "nat \<Rightarrow> string" where
  "str_nat n =
     (if n < 10 then [''0123456789'' ! n]
      else str_nat (n div 10) @ [''0123456789'' ! (n mod 10)])"

declare str_nat.simps [simp del]

text \<open>
  \<open>int(s)\<close> of a string, base 10. A string here is a sequence of the characters U+0000
  to U+00FF, whose only decimal digits are the ASCII ones. Whitespace at both ends is skipped: the ASCII
  characters tab, line feed, vertical tab, form feed, carriage return and space, and the
  two Latin-1 spaces U+0085 and U+00A0 (the separators U+001C to U+001F are not skipped).
  One sign is allowed, and the digits may be grouped by single underscores. A string with
  more than 4300 digits is refused (the interpreter's default limit for conversions).
  Anything else raises ValueError.
\<close>

definition is_space :: "char \<Rightarrow> bool" where
  "is_space c = ((of_char c :: nat) \<in> set [9, 10, 11, 12, 13, 32, 133, 160])"

definition strip :: "string \<Rightarrow> string" where
  "strip s = rev (dropWhile is_space (rev (dropWhile is_space s)))"

definition is_digit :: "char \<Rightarrow> bool" where
  "is_digit c = (48 \<le> (of_char c :: nat) \<and> (of_char c :: nat) \<le> 57)"

fun digits_ok :: "string \<Rightarrow> bool" where
  "digits_ok [] = False"
| "digits_ok [c] = is_digit c"
| "digits_ok (c # d # cs) =
     (is_digit c \<and> (if d = CHR ''_'' then digits_ok cs else digits_ok (d # cs)))"

definition digits_value :: "string \<Rightarrow> nat" where
  "digits_value ds = foldl (\<lambda>a c. 10 * a + (of_char c - 48)) 0 (filter is_digit ds)"

definition int_max_str_digits :: nat where
  "int_max_str_digits = 4300"

definition py_int :: "string \<Rightarrow> exn + int" where
  "py_int s =
     (let t = strip s;
          neg = (t \<noteq> [] \<and> hd t = CHR ''-'');
          body = (if t \<noteq> [] \<and> (hd t = CHR ''-'' \<or> hd t = CHR ''+'') then tl t else t)
      in if \<not> digits_ok body
         then Inl (ValueError ''invalid literal for int() with base 10'')
         else if length (filter is_digit body) > int_max_str_digits
         then Inl (ValueError ''Exceeds the limit for integer string conversion'')
         else Inr (if neg then - int (digits_value body) else int (digits_value body)))"

text \<open>\<open>len(s.encode('utf-8'))\<close>: a character below 128 is one byte, any other two.\<close>

definition utf8_len :: "string \<Rightarrow> nat" where
  "utf8_len s = sum_list (map (\<lambda>c. if (of_char c :: nat) < 128 then 1 else 2) s)"

text \<open>\<open>int.from_bytes(chunk, byteorder='big')\<close> and \<open>value.to_bytes(4, byteorder='big')\<close>.\<close>

definition from_bytes_big :: "bytes \<Rightarrow> nat" where
  "from_bytes_big chunk = foldl (\<lambda>a b. a * 256 + unat b) 0 chunk"

definition to_bytes4 :: "nat \<Rightarrow> exn + bytes" where
  "to_bytes4 v =
     (if v < 2 ^ 32
      then Inr [of_nat (v div 2 ^ 24), of_nat (v div 2 ^ 16), of_nat (v div 2 ^ 8), of_nat v]
      else Inl OverflowError)"

text \<open>
  \<open>{char: idx for idx, char in enumerate(alphabet)}\<close>: where a character occurs twice
  the later index stays.
\<close>

definition char_table :: "string \<Rightarrow> char \<rightharpoonup> nat" where
  "char_table alphabet = map_of (rev (zip alphabet [0 ..< length alphabet]))"

section \<open>The Z85 codec\<close>

definition z85_alphabet :: string where
  "z85_alphabet =
     ''0123456789abcdefghijklmnopqrstuvwxyzABCDEFGHIJKLMNOPQRSTUVWXYZ.-:+=^!/*?&<>()[]{}@%$#''"

text \<open>The inner loop of \<open>_encode_z85\<close>: five times, prepend the digit of \<open>value % 85\<close>.\<close>

fun z85_digits :: "nat \<Rightarrow> nat \<Rightarrow> string \<Rightarrow> string" where
  "z85_digits 0 v encoded = encoded"
| "z85_digits (Suc k) v encoded = z85_digits k (v div 85) (z85_alphabet ! (v mod 85) # encoded)"

text \<open>The outer loop: \<open>for i in range(0, len(data), 4)\<close> over \<open>data[i:i+4]\<close>.\<close>

fun z85_encode_chunks :: "bytes \<Rightarrow> string list" where
  "z85_encode_chunks [] = []"
| "z85_encode_chunks (x # xs) =
     z85_digits 5 (from_bytes_big (take 4 (x # xs))) [] # z85_encode_chunks (drop 4 (x # xs))"

definition z85_padding :: "bytes \<Rightarrow> nat" where
  "z85_padding data = (4 - length data mod 4) mod 4"

definition encode_z85 :: "bytes \<Rightarrow> string" where
  "encode_z85 data =
     (let padding = z85_padding data;
          padded = data @ replicate padding 0
      in ''Z85:'' @ str_nat padding @ '':'' @ concat (z85_encode_chunks padded))"

text \<open>\<open>for char in chunk: value = value * 85 + char_map[char]\<close>; a missing key raises.\<close>

fun z85_value :: "nat \<Rightarrow> string \<Rightarrow> exn + nat" where
  "z85_value v [] = Inr v"
| "z85_value v (c # cs) =
     (case char_table z85_alphabet c of
        None \<Rightarrow> Inl KeyError
      | Some d \<Rightarrow> z85_value (v * 85 + d) cs)"

text \<open>
  The decoding loop over \<open>encoded[i:i+5]\<close>: a last group shorter than five characters
  ends the loop without an error.
\<close>

fun z85_decode_chunks :: "string \<Rightarrow> exn + bytes list" where
  "z85_decode_chunks [] = Inr []"
| "z85_decode_chunks (c # cs) =
     (let chunk = take 5 (c # cs) in
      if length chunk \<noteq> 5 then Inr []
      else case z85_value 0 chunk of
             Inl e \<Rightarrow> Inl e
           | Inr v \<Rightarrow>
               (case to_bytes4 v of
                  Inl e \<Rightarrow> Inl e
                | Inr bs \<Rightarrow>
                    (case z85_decode_chunks (drop 5 (c # cs)) of
                       Inl e \<Rightarrow> Inl e
                     | Inr r \<Rightarrow> Inr (bs # r))))"

text \<open>\<open>decoded[:-padding]\<close> is taken only when \<open>padding > 0\<close>.\<close>

definition trim_padding :: "int \<Rightarrow> bytes \<Rightarrow> bytes" where
  "trim_padding padding decoded =
     (if padding > 0 then take (nat (int (length decoded) - padding)) decoded else decoded)"

definition decode_z85 :: "string \<Rightarrow> exn + bytes" where
  "decode_z85 data =
     (if \<not> startswith data ''Z85:'' then Inl (ValueError ''Invalid Z85 format'')
      else let parts = split_max CHR '':'' 2 data in
        if length parts \<noteq> 3 then Inl (ValueError ''Invalid Z85 format'')
        else case py_int (parts ! 1) of
               Inl e \<Rightarrow> Inl e
             | Inr padding \<Rightarrow>
                 (case z85_decode_chunks (parts ! 2) of
                    Inl e \<Rightarrow> Inl e
                  | Inr result \<Rightarrow> Inr (trim_padding padding (concat result))))"

section \<open>The Base91 codec\<close>

definition base91_alphabet :: string where
  \<open>base91_alphabet =
     ''ABCDEFGHIJKLMNOPQRSTUVWXYZabcdefghijklmnopqrstuvwxyz0123456789!#$%&()*+,./:;<=>?@[]^_`{|}~"''\<close>

text \<open>
  The loop of \<open>_encode_base91\<close> with its accumulator \<open>v\<close>, bit count \<open>b\<close> and output:
  each byte is OR-ed in at offset \<open>b\<close>; with more than 13 bits held, the low 13 bits index
  the alphabet. The index is \<open>v & 8191\<close>, the alphabet has 91 characters.
\<close>

fun b91_encode_loop :: "bytes \<Rightarrow> nat \<Rightarrow> nat \<Rightarrow> string \<Rightarrow> exn + nat \<times> nat \<times> string" where
  "b91_encode_loop [] v b output = Inr (v, b, output)"
| "b91_encode_loop (byte # rest) v b output =
     (let v' = v OR push_bit b (unat byte AND 255);
          b' = b + 8
      in if b' > 13
         then (case py_index base91_alphabet (v' AND 8191) of
                 Inl e \<Rightarrow> Inl e
               | Inr ch \<Rightarrow> b91_encode_loop rest (drop_bit 13 v') (b' - 13) (output @ [ch]))
         else b91_encode_loop rest v' b' output)"

definition encode_base91 :: "bytes \<Rightarrow> exn + string" where
  "encode_base91 data =
     (case b91_encode_loop data 0 0 [] of
        Inl e \<Rightarrow> Inl e
      | Inr (v, b, output) \<Rightarrow>
          if b > 0
          then (case py_index base91_alphabet (v AND 8191) of
                  Inl e \<Rightarrow> Inl e
                | Inr ch \<Rightarrow> Inr (''B91:'' @ output @ [ch]))
          else Inr (''B91:'' @ output))"

text \<open>The inner \<open>while b >= 8\<close> of \<open>_decode_base91\<close>.\<close>

function b91_drain :: "nat \<Rightarrow> nat \<Rightarrow> bytes \<Rightarrow> nat \<times> nat \<times> bytes" where
  "b91_drain v b output =
     (if b \<ge> 8 then b91_drain (drop_bit 8 v) (b - 8) (output @ [of_nat (v AND 255)])
      else (v, b, output))"
  by pat_completeness auto
termination
  by (relation "measure (\<lambda>(v, b, output). b)") auto

declare b91_drain.simps [simp del]

text \<open>The loop over the symbols; a character outside the alphabet is skipped.\<close>

fun b91_decode_loop :: "string \<Rightarrow> nat \<Rightarrow> nat \<Rightarrow> bytes \<Rightarrow> bytes" where
  "b91_decode_loop [] v b output = output"
| "b91_decode_loop (ch # rest) v b output =
     (case char_table base91_alphabet ch of
        None \<Rightarrow> b91_decode_loop rest v b output
      | Some d \<Rightarrow>
          (case b91_drain (v OR push_bit b d) (b + 13) output of
             (v', b', output') \<Rightarrow> b91_decode_loop rest v' b' output'))"

definition decode_base91 :: "string \<Rightarrow> exn + bytes" where
  "decode_base91 data =
     (if \<not> startswith data ''B91:'' then Inl (ValueError ''Invalid Base91 format'')
      else Inr (b91_decode_loop (drop 4 data) 0 0 []))"

section \<open>Floating point, the clock and the backend compressors\<close>

text \<open>
  Python floats are values of a type \<open>'f\<close> with a linear order (no computation below
  produces a NaN), and their arithmetic is a parameter: \<open>of_rat_f\<close> is the float of an
  integer or of a decimal literal, \<open>trunc_f\<close> is \<open>int(x)\<close>. Nothing is assumed about
  rounding. The wall clock is outside the program: where the source computes
  \<open>time.time() - start_time\<close>, the model takes the measured difference as an input.
\<close>

record 'f float_ops =
  of_rat_f :: "rat \<Rightarrow> 'f"
  add_f :: "'f \<Rightarrow> 'f \<Rightarrow> 'f"
  sub_f :: "'f \<Rightarrow> 'f \<Rightarrow> 'f"
  mul_f :: "'f \<Rightarrow> 'f \<Rightarrow> 'f"
  div_f :: "'f \<Rightarrow> 'f \<Rightarrow> 'f"
  trunc_f :: "'f \<Rightarrow> int"

text \<open>\<open>a / b\<close> on two integers, and \<open>x / y\<close> on floats: a zero divisor raises.\<close>

definition int_truediv :: "'f float_ops \<Rightarrow> int \<Rightarrow> int \<Rightarrow> exn + 'f" where
  "int_truediv F a b =
     (if b = 0 then Inl ZeroDivisionError else Inr (of_rat_f F (of_int a / of_int b)))"

definition float_truediv :: "'f float_ops \<Rightarrow> 'f \<Rightarrow> 'f \<Rightarrow> exn + 'f" where
  "float_truediv F x y =
     (if y = of_rat_f F 0 then Inl ZeroDivisionError else Inr (div_f F x y))"

text \<open>
  \<open>max(items, key=...)\<close> on a non-empty list: the running best is replaced only by an
  item whose key is strictly greater.
\<close>

fun max_by :: "('a \<Rightarrow> 'k::linorder) \<Rightarrow> 'a \<Rightarrow> 'a list \<Rightarrow> 'a" where
  "max_by key best [] = best"
| "max_by key best (x # xs) = max_by key (if key best < key x then x else best) xs"

text \<open>
  The compression libraries (gzip, zlib, brotli, lz4, zstandard) and base64 are not part
  of the repository: they are parameters. A compressor or decompressor may raise;
  \<open>base64.b64encode\<close> is total. The three flags are \<open>available_methods['brotli_base64']\<close>,
  \<open>LZ4_SUPPORT\<close> and \<open>ZSTD_SUPPORT\<close>.
\<close>

record backends =
  gzip_compress :: "bytes \<Rightarrow> int \<Rightarrow> exn + bytes"
  gzip_decompress :: "bytes \<Rightarrow> exn + bytes"
  zlib_compress :: "bytes \<Rightarrow> int \<Rightarrow> exn + bytes"
  zlib_decompress :: "bytes \<Rightarrow> exn + bytes"
  brotli_compress :: "bytes \<Rightarrow> int \<Rightarrow> exn + bytes"
  brotli_decompress :: "bytes \<Rightarrow> exn + bytes"
  lz4_compress :: "bytes \<Rightarrow> exn + bytes"
  lz4_decompress :: "bytes \<Rightarrow> exn + bytes"
  zstd_compress :: "bytes \<Rightarrow> int \<Rightarrow> exn + bytes"
  zstd_decompress :: "bytes \<Rightarrow> exn + bytes"
  b64encode :: "bytes \<Rightarrow> string"
  b64decode :: "string \<Rightarrow> exn + bytes"
  brotli_available :: bool
  LZ4_SUPPORT :: bool
  ZSTD_SUPPORT :: bool

definition then_ok :: "exn + 'a \<Rightarrow> ('a \<Rightarrow> exn + 'b) \<Rightarrow> exn + 'b" where
  "then_ok r f = (case r of Inl e \<Rightarrow> Inl e | Inr x \<Rightarrow> f x)"

section \<open>Backend pipelines\<close>

definition gzip_then_base64 :: "backends \<Rightarrow> bytes \<Rightarrow> int \<Rightarrow> exn + string" where
  "gzip_then_base64 B data level =
     then_ok (gzip_compress B data level) (\<lambda>compressed. Inr (b64encode B compressed))"

definition base64_then_gunzip :: "backends \<Rightarrow> string \<Rightarrow> exn + bytes" where
  "base64_then_gunzip B data = then_ok (b64decode B data) (gzip_decompress B)"

definition deflate_then_base64 :: "backends \<Rightarrow> bytes \<Rightarrow> int \<Rightarrow> exn + string" where
  "deflate_then_base64 B data level =
     then_ok (zlib_compress B data level) (\<lambda>compressed. Inr (b64encode B compressed))"

definition base64_then_inflate :: "backends \<Rightarrow> string \<Rightarrow> exn + bytes" where
  "base64_then_inflate B data = then_ok (b64decode B data) (zlib_decompress B)"

definition brotli_then_base64 :: "backends \<Rightarrow> bytes \<Rightarrow> int \<Rightarrow> exn + string" where
  "brotli_then_base64 B data level =
     (if \<not> brotli_available B then gzip_then_base64 B data level
      else then_ok (brotli_compress B data level) (\<lambda>compressed. Inr (b64encode B compressed)))"

definition base64_then_brotli_decompress :: "backends \<Rightarrow> string \<Rightarrow> exn + bytes" where
  "base64_then_brotli_decompress B data = then_ok (b64decode B data) (brotli_decompress B)"

definition lz4_then_base64 :: "backends \<Rightarrow> bytes \<Rightarrow> exn + string" where
  "lz4_then_base64 B data =
     (if \<not> LZ4_SUPPORT B then gzip_then_base64 B data 1
      else then_ok (lz4_compress B data) (\<lambda>compressed. Inr (b64encode B compressed)))"

definition base64_then_lz4_decompress :: "backends \<Rightarrow> string \<Rightarrow> exn + bytes" where
  "base64_then_lz4_decompress B data = then_ok (b64decode B data) (lz4_decompress B)"

definition zstd_then_base64 :: "backends \<Rightarrow> bytes \<Rightarrow> int \<Rightarrow> exn + string" where
  "zstd_then_base64 B data level =
     (if \<not> ZSTD_SUPPORT B then brotli_then_base64 B data level
      else then_ok (zstd_compress B data level) (\<lambda>compressed. Inr (b64encode B compressed)))"

definition base64_then_zstd_decompress :: "backends \<Rightarrow> string \<Rightarrow> exn + bytes" where
  "base64_then_zstd_decompress B data = then_ok (b64decode B data) (zstd_decompress B)"

section \<open>The streaming wrapper\<close>

text \<open>\<open>data[i:i+chunk_size]\<close> for \<open>i\<close> in \<open>range(0, len(data), chunk_size)\<close>.\<close>

function stream_chunks :: "nat \<Rightarrow> bytes \<Rightarrow> bytes list" where
  "stream_chunks chunk_size data =
     (if data = [] \<or> chunk_size = 0 then []
      else take chunk_size data # stream_chunks chunk_size (drop chunk_size data))"
  by pat_completeness auto
termination
  by (relation "measure (\<lambda>(chunk_size, data). length data)") auto

declare stream_chunks.simps [simp del]

fun stream_encode_chunks :: "backends \<Rightarrow> bytes list \<Rightarrow> exn + string list" where
  "stream_encode_chunks B [] = Inr []"
| "stream_encode_chunks B (chunk # rest) =
     then_ok (gzip_compress B chunk 6) (\<lambda>compressed_chunk.
       then_ok (stream_encode_chunks B rest) (\<lambda>r. Inr (b64encode B compressed_chunk # r)))"

definition streaming_gzip_base64 :: "backends \<Rightarrow> bytes \<Rightarrow> nat \<Rightarrow> exn + string" where
  "streaming_gzip_base64 B data chunk_size =
     (if chunk_size = 0 then Inl (ValueError ''range() arg 3 must not be zero'')
      else then_ok (stream_encode_chunks B (stream_chunks chunk_size data)) (\<lambda>result_chunks.
        Inr (''STREAM:'' @ str_nat (length result_chunks) @ '':'' @ join ''|'' result_chunks)))"

fun stream_decode_chunks :: "backends \<Rightarrow> string list \<Rightarrow> exn + bytes list" where
  "stream_decode_chunks B [] = Inr []"
| "stream_decode_chunks B (encoded_chunk # rest) =
     then_ok (b64decode B encoded_chunk) (\<lambda>compressed_chunk.
       then_ok (gzip_decompress B compressed_chunk) (\<lambda>decompressed_chunk.
         then_ok (stream_decode_chunks B rest) (\<lambda>r. Inr (decompressed_chunk # r))))"

definition streaming_gunzip_base64 :: "backends \<Rightarrow> string \<Rightarrow> exn + bytes" where
  "streaming_gunzip_base64 B data =
     (if \<not> startswith data ''STREAM:'' then Inl (ValueError ''Invalid streaming format'')
      else let parts = split_max CHR '':'' 2 data in
        if length parts \<noteq> 3 then Inl (ValueError ''Invalid streaming format'')
        else then_ok (py_int (parts ! 1)) (\<lambda>chunk_count.
          let encoded_chunks = py_split CHR ''|'' (parts ! 2) in
          if int (length encoded_chunks) \<noteq> chunk_count
          then Inl (ValueError ''Chunk count mismatch'')
          else then_ok (stream_decode_chunks B encoded_chunks) (\<lambda>result_chunks.
            Inr (concat result_chunks))))"

section \<open>The method selector\<close>

definition determine_optimal_method :: "backends \<Rightarrow> bytes \<Rightarrow> string \<Rightarrow> string" where
  "determine_optimal_method B data file_type =
     (let size = length data in
      if size > 10 * 1024 * 1024 then ''streaming_gzip''
      else if file_type \<in> set [''image'', ''video'', ''audio''] \<and> size > 100 * 1024 then ''z85''
      else if file_type \<in> set [''pdf'', ''text'', ''json'', ''xml''] then
        (if ZSTD_SUPPORT B \<and> size > 1024 * 1024 then ''zstd_base64''
         else if brotli_available B then ''brotli_base64''
         else ''gzip_base64'')
      else if size < 100 * 1024 then
        (if LZ4_SUPPORT B then ''lz4_base64'' else ''z85'')
      else if size < 1024 * 1024 then ''gzip_base64''
      else ''hybrid'')"

section \<open>The hybrid benchmarker\<close>

definition hybrid_methods_to_try :: "backends \<Rightarrow> bytes \<Rightarrow> string list" where
  "hybrid_methods_to_try B data =
     [''gzip_base64'', ''deflate_base64'']
     @ (if brotli_available B then [''brotli_base64''] else [])
     @ (if LZ4_SUPPORT B \<and> length data < 1024 * 1024 then [''lz4_base64''] else [])
     @ (if length data < 100 * 1024 then [''z85''] else [])"

text \<open>The trial of one method; \<open>None\<close> is the \<open>continue\<close> of the last branch.\<close>

definition hybrid_trial :: "backends \<Rightarrow> bytes \<Rightarrow> string \<Rightarrow> (exn + string) option" where
  "hybrid_trial B data m =
     (if m = ''gzip_base64'' then Some (gzip_then_base64 B data 6)
      else if m = ''deflate_base64'' then Some (deflate_then_base64 B data 6)
      else if m = ''brotli_base64'' then Some (brotli_then_base64 B data 6)
      else if m = ''lz4_base64'' then Some (lz4_then_base64 B data)
      else if m = ''z85'' then Some (Inr (encode_z85 data))
      else None)"

text \<open>\<open>score = 1 / (size * 0.8 + processing_time * 1000 * 0.2)\<close>.\<close>

definition hybrid_score :: "'f float_ops \<Rightarrow> nat \<Rightarrow> 'f \<Rightarrow> exn + 'f" where
  "hybrid_score F size_bytes processing_time =
     float_truediv F (of_rat_f F 1)
       (add_f F (mul_f F (of_rat_f F (of_nat size_bytes)) (of_rat_f F (8 / 10)))
                (mul_f F (mul_f F processing_time (of_rat_f F 1000)) (of_rat_f F (2 / 10))))"

text \<open>
  The loop over \<open>methods_to_try\<close>. \<open>T m\<close> is the time measured for the trial of \<open>m\<close>.
  An exception in a trial, or in its score, drops the candidate.
\<close>

type_synonym 'f candidate = "string \<times> string \<times> nat \<times> 'f"

fun hybrid_candidates ::
  "backends \<Rightarrow> 'f float_ops \<Rightarrow> (string \<Rightarrow> 'f) \<Rightarrow> bytes \<Rightarrow> string list \<Rightarrow> 'f candidate list" where
  "hybrid_candidates B F T data [] = []"
| "hybrid_candidates B F T data (m # ms) =
     (case hybrid_trial B data m of
        None \<Rightarrow> hybrid_candidates B F T data ms
      | Some (Inl e) \<Rightarrow> hybrid_candidates B F T data ms
      | Some (Inr result) \<Rightarrow>
          (case hybrid_score F (utf8_len result) (T m) of
             Inl e \<Rightarrow> hybrid_candidates B F T data ms
           | Inr score \<Rightarrow> (m, result, utf8_len result, score) # hybrid_candidates B F T data ms))"

definition cand_score :: "'f candidate \<Rightarrow> 'f" where
  "cand_score c = snd (snd (snd c))"

definition hybrid_compress ::
  "backends \<Rightarrow> ('f::linorder) float_ops \<Rightarrow> (string \<Rightarrow> 'f) \<Rightarrow> bytes \<Rightarrow> string" where
  "hybrid_compress B F T data =
     (case hybrid_candidates B F T data (hybrid_methods_to_try B data) of
        [] \<Rightarrow> b64encode B data
      | c # cs \<Rightarrow>
          (case max_by cand_score c cs of
             (best_method, best_result, best_size, best_score) \<Rightarrow>
               ''HYBRID:'' @ best_method @ '':'' @ best_result))"

section \<open>Statistics\<close>

record 'f stats =
  files_processed :: nat
  total_original_size :: nat
  total_compressed_size :: nat
  total_processing_time :: 'f
  method_usage :: "string \<rightharpoonup> nat"

definition init_stats :: "'f float_ops \<Rightarrow> 'f stats" where
  "init_stats F =
     \<lparr>files_processed = 0, total_original_size = 0, total_compressed_size = 0,
      total_processing_time = of_rat_f F 0, method_usage = Map.empty\<rparr>"

definition update_stats :: "'f float_ops \<Rightarrow> 'f stats \<Rightarrow> string \<Rightarrow> nat \<Rightarrow> nat \<Rightarrow> 'f \<Rightarrow> 'f stats" where
  "update_stats F st m original_size compressed_size processing_time =
     (let usage = (if m \<notin> dom (method_usage st) then (method_usage st)(m \<mapsto> 0)
                   else method_usage st)
      in st\<lparr>files_processed := files_processed st + 1,
            total_original_size := total_original_size st + original_size,
            total_compressed_size := total_compressed_size st + compressed_size,
            total_processing_time := add_f F (total_processing_time st) processing_time,
            method_usage := usage(m \<mapsto> the (usage m) + 1)\<rparr>)"

section \<open>Top-level dispatch\<close>

record 'f metadata =
  method_name :: string
  original_size :: nat
  compressed_size :: nat
  compression_ratio :: 'f
  efficiency :: 'f
  space_saved :: int
  processing_time_ms :: 'f
  base64_improvement :: 'f
  compression_level :: "int option"

text \<open>The body of the \<open>try\<close> of \<open>compress_data\<close>: the string and the method used.\<close>

definition compress_dispatch ::
  "backends \<Rightarrow> ('f::linorder) float_ops \<Rightarrow> (string \<Rightarrow> 'f) \<Rightarrow> bytes \<Rightarrow> string \<Rightarrow> int
     \<Rightarrow> exn + string \<times> string" where
  "compress_dispatch B F T data m level =
     (if m = ''gzip_base64'' then then_ok (gzip_then_base64 B data level) (\<lambda>c. Inr (c, m))
      else if m = ''deflate_base64'' then then_ok (deflate_then_base64 B data level) (\<lambda>c. Inr (c, m))
      else if m = ''brotli_base64'' then then_ok (brotli_then_base64 B data level) (\<lambda>c. Inr (c, m))
      else if m = ''lz4_base64'' then then_ok (lz4_then_base64 B data) (\<lambda>c. Inr (c, m))
      else if m = ''zstd_base64'' then then_ok (zstd_then_base64 B data level) (\<lambda>c. Inr (c, m))
      else if m = ''z85'' then Inr (encode_z85 data, m)
      else if m = ''base91'' then then_ok (encode_base91 data) (\<lambda>c. Inr (c, m))
      else if m = ''streaming_gzip'' then
        then_ok (streaming_gzip_base64 B data (64 * 1024)) (\<lambda>c. Inr (c, m))
      else if m = ''hybrid'' then Inr (hybrid_compress B F T data, m)
      else then_ok (gzip_then_base64 B data level) (\<lambda>c. Inr (c, ''gzip_base64'')))"

text \<open>
  \<open>compress_data\<close>. \<open>elapsed\<close> is \<open>time.time() - start_time\<close> at the end of the call,
  \<open>T\<close> gives the time of each hybrid trial. The engine's statistics are passed in and
  returned updated; a call that raises returns no statistics, and the caller keeps the
  ones it had.
\<close>

definition compress_data ::
  "backends \<Rightarrow> ('f::linorder) float_ops \<Rightarrow> (string \<Rightarrow> 'f) \<Rightarrow> 'f \<Rightarrow> 'f stats \<Rightarrow> bytes \<Rightarrow> string \<Rightarrow> int
     \<Rightarrow> exn + (string \<times> 'f metadata) \<times> 'f stats" where
  "compress_data B F T elapsed st data m0 level =
     (let original_size = length data;
          m1 = (if m0 = ''auto'' then determine_optimal_method B data ''unknown'' else m0);
          (compressed, m) =
             (case compress_dispatch B F T data m1 level of
                Inl e \<Rightarrow> (b64encode B data, ''base64_only'')
              | Inr r \<Rightarrow> r);
          processing_time = mul_f F elapsed (of_rat_f F 1000);
          csize = utf8_len compressed
      in then_ok (int_truediv F (int csize) (int original_size)) (\<lambda>q1.
         then_ok (int_truediv F (int csize) (int original_size)) (\<lambda>q2.
           let base64_size = trunc_f F (mul_f F (of_rat_f F (of_nat original_size))
                                               (of_rat_f F (133 / 100)))
           in then_ok (int_truediv F (int csize) base64_size) (\<lambda>q3.
             Inr ((compressed,
                   \<lparr>method_name = m, original_size = original_size, compressed_size = csize,
                    compression_ratio = sub_f F (of_rat_f F 1) q1,
                    efficiency = q2,
                    space_saved = int original_size - int csize,
                    processing_time_ms = processing_time,
                    base64_improvement = sub_f F (of_rat_f F 1) q3,
                    compression_level = (if endswith m ''_base64'' then Some level else None)\<rparr>),
                  update_stats F st m original_size csize processing_time)))))"

definition decompress_data :: "backends \<Rightarrow> string \<Rightarrow> 'f metadata \<Rightarrow> exn + bytes" where
  "decompress_data B compressed_data md =
     (let m = method_name md in
      if m = ''gzip_base64'' then base64_then_gunzip B compressed_data
      else if m = ''deflate_base64'' then base64_then_inflate B compressed_data
      else if m = ''brotli_base64'' then base64_then_brotli_decompress B compressed_data
      else if m = ''lz4_base64'' then base64_then_lz4_decompress B compressed_data
      else if m = ''zstd_base64'' then base64_then_zstd_decompress B compressed_data
      else if m = ''z85'' then decode_z85 compressed_data
      else if m = ''base91'' then decode_base91 compressed_data
      else if m = ''streaming_gzip'' then streaming_gunzip_base64 B compressed_data
      else if m = ''base64_only'' then b64decode B compressed_data
      else Inl (ValueError (''Unknown compression method: '' @ m)))"

section \<open>The selection rules as the specification words them\<close>

text \<open>
  An ordered list of rules, each a condition on the payload size, the content-type hint
  and the available backends, with the codec it selects; the first rule whose condition
  holds decides. Sizes are in bytes.
\<close>

definition KiB :: nat where "KiB = 1024"
definition MiB :: nat where "MiB = 1024 * 1024"

definition media_hint :: "string \<Rightarrow> bool" where
  "media_hint hint = (hint = ''image'' \<or> hint = ''video'' \<or> hint = ''audio'')"

definition text_hint :: "string \<Rightarrow> bool" where
  "text_hint hint = (hint = ''pdf'' \<or> hint = ''text'' \<or> hint = ''json'' \<or> hint = ''xml'')"

definition selection_rules :: "nat \<Rightarrow> string \<Rightarrow> bool \<Rightarrow> bool \<Rightarrow> bool \<Rightarrow> (bool \<times> string) list" where
  "selection_rules n hint brotli lz4 zstd =
     [(n > 10 * MiB, ''streaming_gzip''),
      (media_hint hint \<and> n > 100 * KiB, ''z85''),
      (text_hint hint \<and> zstd \<and> n > MiB, ''zstd_base64''),
      (text_hint hint \<and> brotli, ''brotli_base64''),
      (text_hint hint, ''gzip_base64''),
      (n < 100 * KiB \<and> lz4, ''lz4_base64''),
      (n < 100 * KiB, ''z85''),
      (n < MiB, ''gzip_base64'')]"

fun first_match :: "(bool \<times> 'a) list \<Rightarrow> 'a \<Rightarrow> 'a" where
  "first_match [] otherwise = otherwise"
| "first_match ((c, r) # rules) otherwise = (if c then r else first_match rules otherwise)"

definition select_spec :: "nat \<Rightarrow> string \<Rightarrow> bool \<Rightarrow> bool \<Rightarrow> bool \<Rightarrow> string" where
  "select_spec n hint brotli lz4 zstd =
     first_match (selection_rules n hint brotli lz4 zstd) ''hybrid''"


section \<open>An environment for running the engine on examples\<close>

text \<open>
  The theorems below hold for every choice of backends and of float arithmetic. To run
  the engine on a concrete input one choice is needed: here every compressor stores its
  input unchanged, base16 stands for base64 (two hexadecimal characters per byte), LZ4 and
  zstandard are absent, and floats are exact rationals.
\<close>

definition b16_alphabet :: string where
  "b16_alphabet = ''0123456789abcdef''"

definition b16encode :: "bytes \<Rightarrow> string" where
  "b16encode data =
     concat (map (\<lambda>b. [b16_alphabet ! (unat b div 16), b16_alphabet ! (unat b mod 16)]) data)"

fun b16decode :: "string \<Rightarrow> exn + bytes" where
  "b16decode [] = Inr []"
| "b16decode [c] = Inl BackendError"
| "b16decode (c # d # rest) =
     (case (char_table b16_alphabet c, char_table b16_alphabet d) of
        (Some h, Some l) \<Rightarrow> then_ok (b16decode rest) (\<lambda>bs. Inr (of_nat (16 * h + l) # bs))
      | _ \<Rightarrow> Inl BackendError)"

definition demo_backends :: backends where
  "demo_backends =
     \<lparr>gzip_compress = (\<lambda>data level. Inr data), gzip_decompress = Inr,
      zlib_compress = (\<lambda>data level. Inr data), zlib_decompress = Inr,
      brotli_compress = (\<lambda>data level. Inr data), brotli_decompress = Inr,
      lz4_compress = Inr, lz4_decompress = Inr,
      zstd_compress = (\<lambda>data level. Inr data), zstd_decompress = Inr,
      b64encode = b16encode, b64decode = b16decode,
      brotli_available = True, LZ4_SUPPORT = False, ZSTD_SUPPORT = False\<rparr>"

definition exact_floats :: "rat float_ops" where
  "exact_floats =
     \<lparr>of_rat_f = (\<lambda>q. q), add_f = (+), sub_f = (-), mul_f = (*), div_f = (/),
      trunc_f = (\<lambda>x. if x \<ge> 0 then \<lfloor>x\<rfloor> else \<lceil>x\<rceil>)\<rparr>"

definition demo_metadata :: "string \<Rightarrow> rat metadata" where
  "demo_metadata m =
     \<lparr>method_name = m, original_size = 0, compressed_size = 0, compression_ratio = 0,
      efficiency = 0, space_saved = 0, processing_time_ms = 0, base64_improvement = 0,
      compression_level = None\<rparr>"

section \<open>The conditions under which decoding must fail\<close>

text \<open>The names \<open>decompress_data\<close> has a branch for.\<close>

definition decodable_methods :: "string list" where
  "decodable_methods =
     [''gzip_base64'', ''deflate_base64'', ''brotli_base64'', ''lz4_base64'', ''zstd_base64'',
      ''z85'', ''base91'', ''streaming_gzip'', ''base64_only'']"

text \<open>
  The names of the codec set: the names above and \<open>'hybrid'\<close>, which
  \<open>compress_data\<close> records in the metadata. A method outside this list is unrecognised.
\<close>

definition codec_names :: "string list" where
  "codec_names = decodable_methods @ [''hybrid'']"

text \<open>
  A frame \<open><tag>:<count>:<body>\<close> is malformed when the tag is missing, when it has fewer
  than three parts, or when \<open>int()\<close> rejects the count field. A STREAM frame's count is
  wrong when it is a number different from the number of \<open>|\<close>-separated segments.
\<close>

definition frame_parts :: "string \<Rightarrow> string list" where
  "frame_parts data = split_max CHR '':'' 2 data"

definition malformed_frame :: "string \<Rightarrow> string \<Rightarrow> bool" where
  "malformed_frame tag data =
     (\<not> startswith data tag \<or> length (frame_parts data) \<noteq> 3
      \<or> isl (py_int (frame_parts data ! 1)))"

definition chunk_count_mismatch :: "string \<Rightarrow> bool" where
  "chunk_count_mismatch data =
     (case py_int (frame_parts data ! 1) of
        Inl e \<Rightarrow> False
      | Inr n \<Rightarrow> int (length (py_split CHR ''|'' (frame_parts data ! 2))) \<noteq> n)"

definition must_fail :: "string \<Rightarrow> string \<Rightarrow> bool" where
  "must_fail m data =
     (m \<notin> set codec_names
      \<or> (m = ''z85'' \<and> malformed_frame ''Z85:'' data)
      \<or> (m = ''base91'' \<and> \<not> startswith data ''B91:'')
      \<or> (m = ''streaming_gzip''
          \<and> (malformed_frame ''STREAM:'' data \<or> chunk_count_mismatch data)))"

section \<open>A sequence of calls on one engine\<close>

text \<open>
  One call of \<open>compress_data\<close> with what the clock measured during it. A sequence of
  calls threads the statistics of the engine through the calls, in order, and keeps the
  outcome of every call. A call that raises returns nothing and leaves the statistics as
  they were; the caller goes on with the next call.
\<close>

record 'f call =
  call_data :: bytes
  call_method :: string
  call_level :: int
  call_elapsed :: 'f
  call_trials :: "string \<Rightarrow> 'f"

type_synonym 'f outcome = "exn + string \<times> 'f metadata"

fun run_calls ::
  "backends \<Rightarrow> ('f::linorder) float_ops \<Rightarrow> 'f stats \<Rightarrow> 'f call list
     \<Rightarrow> 'f outcome list \<times> 'f stats" where
  "run_calls B F st [] = ([], st)"
| "run_calls B F st (c # cs) =
     (case compress_data B F (call_trials c) (call_elapsed c) st
             (call_data c) (call_method c) (call_level c) of
        Inl e \<Rightarrow> (case run_calls B F st cs of (outs, st') \<Rightarrow> (Inl e # outs, st'))
      | Inr (r, st1) \<Rightarrow> (case run_calls B F st1 cs of (outs, st') \<Rightarrow> (Inr r # outs, st')))"

text \<open>The calls that completed, and what they returned.\<close>

fun completed_calls :: "'f call list \<Rightarrow> 'f outcome list \<Rightarrow> 'f call list" where
  "completed_calls (c # cs) (Inr r # outs) = c # completed_calls cs outs"
| "completed_calls (c # cs) (Inl e # outs) = completed_calls cs outs"
| "completed_calls cs outs = []"

fun completed :: "'f outcome list \<Rightarrow> (string \<times> 'f metadata) list" where
  "completed [] = []"
| "completed (Inl e # outs) = completed outs"
| "completed (Inr r # outs) = r # completed outs"

text \<open>\<open>method_usage.get(m, 0)\<close>: the count of a method, 0 for one never used.\<close>

definition usage :: "'f stats \<Rightarrow> string \<Rightarrow> nat" where
  "usage st m = (case method_usage st m of None \<Rightarrow> 0 | Some n \<Rightarrow> n)"

text \<open>
  The processing time of a call as \<open>compress_data\<close> computes it, and the float sum of a
  list of times, added in order to the engine's initial 0.
\<close>

definition call_time :: "'f float_ops \<Rightarrow> 'f call \<Rightarrow> 'f" where
  "call_time F c = mul_f F (call_elapsed c) (of_rat_f F 1000)"

definition float_sum :: "'f float_ops \<Rightarrow> 'f list \<Rightarrow> 'f" where
  "float_sum F ts = foldl (add_f F) (of_rat_f F 0) ts"

text \<open>Adding a non-negative float never gives less: true of IEEE addition.\<close>

definition float_add_monotone :: "('f::linorder) float_ops \<Rightarrow> bool" where
  "float_add_monotone F = (\<forall>x y. of_rat_f F 0 \<le> y \<longrightarrow> x \<le> add_f F x y)"

text \<open>
  Calls for the example environment: three bytes with Z85, one byte with gzip, the empty
  payload, and a call during which the wall clock was set back by two milliseconds.
\<close>

definition demo_call1 :: "rat call" where
  "demo_call1 =
     \<lparr>call_data = [1, 2, 3], call_method = ''z85'', call_level = 6,
      call_elapsed = 1 / 1000, call_trials = (\<lambda>m. 0)\<rparr>"

definition demo_call2 :: "rat call" where
  "demo_call2 =
     \<lparr>call_data = [7], call_method = ''gzip_base64'', call_level = 6,
      call_elapsed = 2 / 1000, call_trials = (\<lambda>m. 0)\<rparr>"

definition demo_call_empty :: "rat call" where
  "demo_call_empty =
     \<lparr>call_data = [], call_method = ''gzip_base64'', call_level = 6,
      call_elapsed = 1 / 1000, call_trials = (\<lambda>m. 0)\<rparr>"

definition demo_call_clock_back :: "rat call" where
  "demo_call_clock_back =
     \<lparr>call_data = [7], call_method = ''gzip_base64'', call_level = 6,
      call_elapsed = - 2 / 1000, call_trials = (\<lambda>m. 0)\<rparr>"

section \<open>Candidates of the hybrid benchmarker that succeed\<close>

text \<open>
  A candidate succeeds when its trial returns a string and its score is computed; the
  \<open>try\<close> of the benchmarker covers both.
\<close>

definition candidate_succeeds ::
  "backends \<Rightarrow> 'f float_ops \<Rightarrow> (string \<Rightarrow> 'f) \<Rightarrow> bytes \<Rightarrow> string \<Rightarrow> bool" where
  "candidate_succeeds B F T data m =
     (case hybrid_trial B data m of
        Some (Inr result) \<Rightarrow> \<not> isl (hybrid_score F (utf8_len result) (T m))
      | _ \<Rightarrow> False)"

text \<open>The example environment with a zlib whose compressor raises.\<close>

definition demo_backends_no_deflate :: backends where
  "demo_backends_no_deflate =
     demo_backends\<lparr>zlib_compress := (\<lambda>data level. Inl BackendError)\<rparr>"

section \<open>Round trip of the codecs\<close>

lemma base91_table_AB:
  "char_table base91_alphabet CHR ''B'' = Some 1"
  "char_table base91_alphabet CHR ''A'' = Some 0"
  by (simp_all add: char_table_def base91_alphabet_def upt_conv_Cons)

text \<open>
  Claim C1 (every codec round-trips, \<open>decode(encode(p)) == p\<close>) fails for the Base91
  codec. The two-byte payload \<open>01 00\<close> is encoded without an error as \<open>B91:BA\<close>: the
  first symbol carries 13 bits, the final flush carries the 3 bits left over. The decoder
  reads 13 bits from every symbol, so it holds 26 bits and emits three bytes, one more
  than the payload had.
\<close>

theorem base91_round_trip_fails:
  "encode_base91 [1, 0] = Inr ''B91:BA'' \<and> decode_base91 ''B91:BA'' = Inr [1, 0, 0]"
proof
  show "encode_base91 [1, 0] = Inr ''B91:BA''"
    by (simp add: encode_base91_def py_index_def base91_alphabet_def)
  show "decode_base91 ''B91:BA'' = Inr [1, 0, 0]"
    by (simp add: decode_base91_def startswith_def base91_table_AB b91_drain.simps)
qed

section \<open>Decoding a hybrid artifact\<close>

text \<open>
  Claim C2 (\<open>decompress_data\<close> on the string of hybrid compression, with
  \<open>metadata.method = 'hybrid'\<close>, returns the payload). \<open>compress_data\<close> has a branch for
  \<open>'hybrid'\<close> and records that name in the metadata, but \<open>decompress_data\<close> has no
  branch for it: the name falls through to the final \<open>else\<close>, which raises
  ValueError. This holds for every payload, every backend and every measured time.
\<close>

theorem hybrid_not_decodable:
  "decompress_data B (hybrid_compress B F T data) (md\<lparr>method_name := ''hybrid''\<rparr>)
     = Inl (ValueError ''Unknown compression method: hybrid'')"
  by (simp add: decompress_data_def)

section \<open>compress\_data on the empty payload\<close>

text \<open>
  Claim C3 (\<open>compress_data\<close> never raises, for every payload including the empty one).
  The codec call is inside a \<open>try\<close>, but the metrics after it are not:
  \<open>compressed_size / original_size\<close> divides by the payload length. On the empty
  payload the call raises ZeroDivisionError, whatever the method, the level and the
  backends.
\<close>

theorem compress_data_empty_raises:
  "compress_data B F T elapsed st [] m level = Inl ZeroDivisionError"
  by (simp add: compress_data_def int_truediv_def then_ok_def Let_def split: prod.splits)

section \<open>Base91 symbols\<close>

text \<open>
  Claim C7 (for every N-byte payload the Base91 encoder emits between \<open>ceil(8N/13)\<close> and
  \<open>ceil(8N/13) + 1\<close> symbols). On the one-byte payload \<open>FF\<close> the encoder emits no
  symbol at all: the final flush indexes the 91-character alphabet with \<open>v & 8191 = 255\<close>
  and raises IndexError.
\<close>

theorem base91_encode_raises:
  "encode_base91 [255] = Inl IndexError"
  by (simp add: encode_base91_def py_index_def base91_alphabet_def)

section \<open>Method selection\<close>

text \<open>
  Claim C4: method selection is a function of the payload size, the content-type hint and
  the available backends alone, and it applies the ordered first-match rules: more than
  10 MiB selects the streaming wrapper; a media hint with more than 100 KiB selects Z85;
  a text hint selects zstd above 1 MiB when available, else brotli when available, else
  gzip; less than 100 KiB selects LZ4 when available, else Z85; less than 1 MiB selects
  gzip; everything else the hybrid wrapper.
\<close>

theorem determine_optimal_method_rules:
  "determine_optimal_method B data hint
     = select_spec (length data) hint (brotli_available B) (LZ4_SUPPORT B) (ZSTD_SUPPORT B)"
  by (simp add: determine_optimal_method_def select_spec_def selection_rules_def
      media_hint_def text_hint_def KiB_def MiB_def)




section \<open>Decode errors\<close>

lemma decode_z85_malformed:
  "malformed_frame ''Z85:'' data \<Longrightarrow> \<exists>msg. decode_z85 data = Inl (ValueError msg)"
  by (auto simp: malformed_frame_def decode_z85_def frame_parts_def py_int_def int_max_str_digits_def Let_def
      split: sum.splits if_splits)

lemma streaming_gunzip_malformed:
  "malformed_frame ''STREAM:'' data \<or> chunk_count_mismatch data
     \<Longrightarrow> \<exists>msg. streaming_gunzip_base64 B data = Inl (ValueError msg)"
  by (auto simp: malformed_frame_def chunk_count_mismatch_def streaming_gunzip_base64_def
      frame_parts_def py_int_def int_max_str_digits_def then_ok_def Let_def split: sum.splits if_splits)

text \<open>
  A count field with a separator character that \<open>int()\<close> does not skip is rejected,
  so the frame is malformed and decoding raises.
\<close>

lemma decode_z85_separator_in_count:
  "malformed_frame ''Z85:'' (''Z85:'' @ [CHR 0x1F] @ ''1:0rJu6'')
   \<and> decode_z85 (''Z85:'' @ [CHR 0x1F] @ ''1:0rJu6'')
       = Inl (ValueError ''invalid literal for int() with base 10'')"
  by (simp add: malformed_frame_def frame_parts_def decode_z85_def startswith_def py_int_def
      strip_def is_space_def is_digit_def numeral_2_eq_2)

text \<open>
  Claim C5 says that \<open>decompress_data\<close> raises exactly when the method is unrecognised,
  a frame is malformed, or a STREAM count does not match. The frame \<open>Z85:0:~~~~~\<close> with
  method \<open>'z85'\<close> meets none of the three conditions (the method has a branch, the frame
  has its tag and three parts, the count is \<open>0\<close>), and \<open>decompress_data\<close> raises on it:
  \<open>~\<close> is not a Z85 digit, the table lookup raises KeyError, and the \<open>except\<close> clause
  of \<open>decompress_data\<close> logs and re-raises whatever was raised.
\<close>

theorem decompress_data_raises_elsewhere:
  "\<not> must_fail ''z85'' ''Z85:0:~~~~~''
   \<and> decompress_data demo_backends ''Z85:0:~~~~~'' (demo_metadata ''z85'') = Inl KeyError"
proof
  show "\<not> must_fail ''z85'' ''Z85:0:~~~~~''"
    by (simp add: must_fail_def codec_names_def decodable_methods_def malformed_frame_def
        startswith_def
        frame_parts_def py_int_def int_max_str_digits_def strip_def is_space_def is_digit_def numeral_2_eq_2)
  show "decompress_data demo_backends ''Z85:0:~~~~~'' (demo_metadata ''z85'') = Inl KeyError"
    by (simp add: decompress_data_def demo_metadata_def decode_z85_def startswith_def
        py_int_def int_max_str_digits_def strip_def is_space_def is_digit_def numeral_2_eq_2 char_table_def
        z85_alphabet_def upt_conv_Cons)
qed

text \<open>
  Claim C5 as amended: \<open>decompress_data\<close> raises ValueError whenever the method is not
  a codec name, whenever a Z85 or STREAM frame is malformed (tag missing, fewer than three
  parts, or a count field that \<open>int()\<close> rejects), whenever a Base91 string lacks its
  tag, and whenever a STREAM frame's declared count differs from the number of
  \<open>|\<close>-separated segments. It holds for every backend. Nothing is said about the other
  inputs, nor about the method \<open>'hybrid'\<close>.
\<close>

theorem decompress_data_fails:
  "must_fail (method_name md) data \<Longrightarrow> \<exists>msg. decompress_data B data md = Inl (ValueError msg)"
  unfolding must_fail_def
  apply (elim disjE conjE)
  subgoal by (simp add: decompress_data_def codec_names_def decodable_methods_def)
  subgoal using decode_z85_malformed by (simp add: decompress_data_def)
  subgoal by (simp add: decompress_data_def decode_base91_def)
  subgoal using streaming_gunzip_malformed [of data B] by (simp add: decompress_data_def)
  subgoal using streaming_gunzip_malformed [of data B] by (simp add: decompress_data_def)
  done

theorem decompress_data_fails_witness:
  "must_fail ''streaming_gzip'' ''STREAM:2:00''
   \<and> (\<exists>msg. decompress_data demo_backends ''STREAM:2:00'' (demo_metadata ''streaming_gzip'')
          = Inl (ValueError msg))"
proof -
  have h: "must_fail (method_name (demo_metadata ''streaming_gzip'')) ''STREAM:2:00''"
    by (simp add: must_fail_def demo_metadata_def chunk_count_mismatch_def frame_parts_def
        py_int_def int_max_str_digits_def strip_def is_space_def is_digit_def digits_value_def py_split_def
        numeral_2_eq_2)
  from decompress_data_fails [OF h, of demo_backends] h
  show ?thesis by (simp add: demo_metadata_def)
qed

section \<open>Z85: padding and round trip\<close>

lemma z85_digits_5:
  "z85_digits 5 v acc =
     [z85_alphabet ! (v div 85 div 85 div 85 div 85 mod 85),
      z85_alphabet ! (v div 85 div 85 div 85 mod 85),
      z85_alphabet ! (v div 85 div 85 mod 85),
      z85_alphabet ! (v div 85 mod 85),
      z85_alphabet ! (v mod 85)] @ acc"
proof -
  have five: "(5::nat) = Suc (Suc (Suc (Suc (Suc 0))))" by simp
  show ?thesis by (simp only: five z85_digits.simps append.simps)
qed

lemma str_nat_digit: "n < 10 \<Longrightarrow> str_nat n = [''0123456789'' ! n]"
  by (simp add: str_nat.simps)

lemma str_nat_small:
  "str_nat 0 = ''0''" "str_nat (Suc 0) = ''1''" "str_nat 2 = ''2''" "str_nat 3 = ''3''"
  by (simp_all add: str_nat_digit)

lemma enc123: "encode_z85 [1, 2, 3] = ''Z85:1:0rJu6''"
  by (simp add: encode_z85_def z85_padding_def str_nat_small from_bytes_big_def z85_digits_5
      z85_alphabet_def)

lemma char_table_nth:
  assumes "distinct alphabet" "i < length alphabet"
  shows "char_table alphabet (alphabet ! i) = Some i"
proof -
  let ?zs = "zip alphabet [0 ..< length alphabet]"
  have d: "distinct (map fst (rev ?zs))"
    using assms(1) by (simp add: rev_map [symmetric])
  have "(alphabet ! i, i) \<in> set (rev ?zs)"
    using assms(2) by (auto simp: set_zip intro!: exI [of _ i])
  with d show ?thesis
    unfolding char_table_def by (simp only: map_of_eq_Some_iff)
qed

lemma z85_alphabet_distinct: "distinct z85_alphabet" "length z85_alphabet = 85"
  by (simp_all add: z85_alphabet_def)

lemma to_from_bytes4:
  "to_bytes4 (from_bytes_big [a, b, c, d]) = Inr [a, b, c, d]"
proof -
  let ?v = "((unat a * 256 + unat b) * 256 + unat c) * 256 + unat d"
  have bounds: "unat a < 256" "unat b < 256" "unat c < 256" "unat d < 256"
    using unsigned_less [of a] unsigned_less [of b] unsigned_less [of c] unsigned_less [of d]
    by simp_all
  have v: "from_bytes_big [a, b, c, d] = ?v" by (simp add: from_bytes_big_def)
  have lt: "?v < 2 ^ 32" using bounds by simp
  have d24: "?v div 2 ^ 24 = unat a" using bounds by simp
  have d16: "?v div 2 ^ 16 = unat a * 256 + unat b" using bounds by simp
  have d8: "?v div 2 ^ 8 = (unat a * 256 + unat b) * 256 + unat c" using bounds by simp
  have z: "(256 :: 8 word) = 0" by simp
  show ?thesis
    unfolding v to_bytes4_def using lt
    by (simp only: d24 d16 d8 if_True of_nat_add of_nat_mult of_nat_numeral z) simp
qed
lemma z85_value_step:
  "d < 85 \<Longrightarrow> z85_value v (z85_alphabet ! d # cs) = z85_value (v * 85 + d) cs"
  by (simp add: char_table_nth z85_alphabet_distinct)

lemma z85_value_step_mod:
  "z85_value v (z85_alphabet ! (x mod 85) # cs) = z85_value (v * 85 + x mod 85) cs"
  by (rule z85_value_step) simp

lemma z85_value_digits:
  assumes "v < 2 ^ 32"
  shows "z85_value 0 (z85_digits 5 v []) = Inr v"
proof -
  define q1 where "q1 = v div 85"
  define q2 where "q2 = q1 div 85"
  define q3 where "q3 = q2 div 85"
  define q4 where "q4 = q3 div 85"
  have e0: "v = q1 * 85 + v mod 85" by (simp add: q1_def)
  have e1: "q1 = q2 * 85 + q1 mod 85" by (simp add: q2_def)
  have e2: "q2 = q3 * 85 + q2 mod 85" by (simp add: q3_def)
  have e3: "q3 = q4 * 85 + q3 mod 85" by (simp add: q4_def)
  have "q4 < 85" using assms unfolding q4_def q3_def q2_def q1_def by simp
  then have e4: "q4 mod 85 = q4" by simp
  have "z85_value 0 (z85_digits 5 v [])
      = Inr (((((0 * 85 + q4 mod 85) * 85 + q3 mod 85) * 85 + q2 mod 85) * 85 + q1 mod 85) * 85
               + v mod 85)"
    unfolding z85_digits_5 q4_def q3_def q2_def q1_def
    by (simp only: z85_value_step_mod z85_value.simps(1) append.simps)
  also have "\<dots> = Inr v"
    unfolding e4 using e0 e1 e2 e3 by simp
  finally show ?thesis .
qed
lemma z85_decode_group:
  "z85_decode_chunks (z85_digits 5 (from_bytes_big [a, b, c, d]) [] @ rest)
     = (case z85_decode_chunks rest of Inl e \<Rightarrow> Inl e | Inr r \<Rightarrow> Inr ([a, b, c, d] # r))"
proof -
  let ?v = "from_bytes_big [a, b, c, d]"
  obtain g0 g1 g2 g3 g4 where g: "z85_digits 5 ?v [] = [g0, g1, g2, g3, g4]"
    unfolding z85_digits_5 by simp
  have "?v < 2 ^ 32"
    using to_from_bytes4 [of a b c d] by (auto simp: to_bytes4_def split: if_splits)
  then have val: "z85_value 0 [g0, g1, g2, g3, g4] = Inr ?v"
    using z85_value_digits [of ?v] unfolding g by simp
  show ?thesis
    unfolding g by (simp add: val to_from_bytes4 del: z85_value.simps split: sum.splits)
qed

lemma z85_chunks_round_trip:
  "length data mod 4 = 0 \<Longrightarrow>
     \<exists>groups. z85_decode_chunks (concat (z85_encode_chunks data)) = Inr groups
        \<and> concat groups = data \<and> (\<forall>g\<in>set groups. length g = 4)"
proof (induction data rule: z85_encode_chunks.induct)
  case 1
  show ?case by simp
next
  case (2 x xs)
  from "2.prems" have "4 \<le> length (x # xs)" by (cases "length (x # xs) < 4") auto
  then obtain b c d rest where xs: "xs = b # c # d # rest"
    by (cases xs; cases "tl xs"; cases "tl (tl xs)") auto
  from "2.prems" have "length rest mod 4 = 0" by (simp add: xs)
  with "2.IH" obtain groups where
    dec: "z85_decode_chunks (concat (z85_encode_chunks rest)) = Inr groups"
    and cat: "concat groups = rest" and len: "\<forall>g\<in>set groups. length g = 4"
    by (auto simp: xs)
  have "z85_decode_chunks (concat (z85_encode_chunks (x # xs))) = Inr ([x, b, c, d] # groups)"
    by (simp add: xs z85_decode_group dec del: z85_decode_chunks.simps z85_digits.simps)
  with cat len show ?case by (simp add: xs)
qed

lemma split_at_colon:
  assumes "CHR '':'' \<notin> set p"
  shows "takeWhile (\<lambda>c. c \<noteq> CHR '':'') (p @ CHR '':'' # body) = p"
    and "dropWhile (\<lambda>c. c \<noteq> CHR '':'') (p @ CHR '':'' # body) = CHR '':'' # body"
proof -
  have all: "\<And>x. x \<in> set p \<Longrightarrow> x \<noteq> CHR '':''" using assms by auto
  show "takeWhile (\<lambda>c. c \<noteq> CHR '':'') (p @ CHR '':'' # body) = p"
    using all by (simp add: takeWhile_append2)
  show "dropWhile (\<lambda>c. c \<noteq> CHR '':'') (p @ CHR '':'' # body) = CHR '':'' # body"
    using all by (simp add: dropWhile_append2)
qed

lemma split_z85_frame:
  "CHR '':'' \<notin> set p \<Longrightarrow>
     split_max CHR '':'' 2 (''Z85:'' @ p @ '':'' @ body) = [''Z85'', p, body]"
  by (simp add: numeral_2_eq_2 split_at_colon)


lemma py_int_padding: "pad < 4 \<Longrightarrow> py_int (str_nat pad) = Inr (int pad)"
proof -
  assume "pad < 4"
  then consider "pad = 0" | "pad = Suc 0" | "pad = 2" | "pad = 3" by linarith
  then show ?thesis
    by cases (simp_all add: str_nat_small py_int_def int_max_str_digits_def strip_def is_space_def is_digit_def
        digits_value_def)
qed

lemma str_nat_padding_no_colon: "pad < 4 \<Longrightarrow> CHR '':'' \<notin> set (str_nat pad)"
proof -
  assume "pad < 4"
  then consider "pad = 0" | "pad = Suc 0" | "pad = 2" | "pad = 3" by linarith
  then show ?thesis by cases (simp_all add: str_nat_small)
qed

lemma z85_padding_facts:
  "z85_padding data < 4" "(length data + z85_padding data) mod 4 = 0"
proof -
  define r where "r = length data mod 4"
  have "r < 4" by (simp add: r_def)
  then consider "r = 0" | "r = 1" | "r = 2" | "r = 3" by linarith
  then have "(4 - r) mod 4 < 4 \<and> (r + (4 - r) mod 4) mod 4 = 0"
    by cases simp_all
  moreover have "(length data + z85_padding data) mod 4 = (r + z85_padding data) mod 4"
    unfolding r_def by (simp add: mod_add_left_eq)
  ultimately show "z85_padding data < 4" "(length data + z85_padding data) mod 4 = 0"
    by (simp_all add: z85_padding_def r_def)
qed
lemma z85_frame_decoded:
  fixes data :: bytes
  defines "pad \<equiv> z85_padding data"
  defines "digits \<equiv> concat (z85_encode_chunks (data @ replicate pad 0))"
  shows "\<exists>groups.
      encode_z85 data = ''Z85:'' @ str_nat pad @ '':'' @ digits
      \<and> frame_parts (encode_z85 data) = [''Z85'', str_nat pad, digits]
      \<and> z85_decode_chunks digits = Inr groups
      \<and> (\<forall>g\<in>set groups. length g = 4)
      \<and> concat groups = data @ replicate pad 0
      \<and> decode_z85 (encode_z85 data) = Inr (take (length (concat groups) - pad) (concat groups))
      \<and> take (length (concat groups) - pad) (concat groups) = data"
proof -
  have pad4: "pad < 4" and len: "length (data @ replicate pad 0) mod 4 = 0"
    using z85_padding_facts [of data] by (simp_all add: pad_def)
  have enc: "encode_z85 data = ''Z85:'' @ str_nat pad @ '':'' @ digits"
    by (simp add: encode_z85_def pad_def digits_def Let_def)
  have parts: "split_max CHR '':'' 2 (encode_z85 data) = [''Z85'', str_nat pad, digits]"
    unfolding enc using str_nat_padding_no_colon [OF pad4] by (rule split_z85_frame)
  from z85_chunks_round_trip [OF len] obtain groups where
    dec: "z85_decode_chunks digits = Inr groups"
    and cat: "concat groups = data @ replicate pad 0"
    and four: "\<forall>g\<in>set groups. length g = 4"
    unfolding digits_def by blast
  have start: "startswith (encode_z85 data) ''Z85:''"
    by (simp add: enc startswith_def)
  have "decode_z85 (encode_z85 data) = Inr (trim_padding (int pad) (concat groups))"
    by (simp add: decode_z85_def start parts py_int_padding [OF pad4] dec)
  also have "trim_padding (int pad) (concat groups)
      = take (length (concat groups) - pad) (concat groups)"
    by (cases "pad = 0") (simp_all add: trim_padding_def nat_diff_distrib')
  finally have out: "decode_z85 (encode_z85 data)
      = Inr (take (length (concat groups) - pad) (concat groups))" .
  have trim: "take (length (concat groups) - pad) (concat groups) = data"
    by (simp add: cat)
  from enc parts dec four cat out trim show ?thesis
    by (simp add: frame_parts_def)
qed

lemma z85_round_trip: "decode_z85 (encode_z85 data) = Inr data"
  using z85_frame_decoded [of data] by auto

text \<open>
  Claim C6: for a payload whose length is not a multiple of 4, the Z85 frame records the
  padding count \<open>(4 - len mod 4) mod 4\<close>, which is not zero, as its second part; the
  decoder turns the digits into groups of four bytes each, and returns their
  concatenation without its last padding-count bytes, which is the payload.
\<close>

theorem z85_padding_recorded_and_removed:
  assumes "length data mod 4 \<noteq> 0"
  shows "\<exists>digits groups.
      (4 - length data mod 4) mod 4 \<noteq> 0
      \<and> frame_parts (encode_z85 data)
          = [''Z85'', str_nat ((4 - length data mod 4) mod 4), digits]
      \<and> z85_decode_chunks digits = Inr groups
      \<and> (\<forall>g\<in>set groups. length g = 4)
      \<and> decode_z85 (encode_z85 data)
          = Inr (take (length (concat groups) - (4 - length data mod 4) mod 4) (concat groups))
      \<and> take (length (concat groups) - (4 - length data mod 4) mod 4) (concat groups) = data"
proof -
  define r where "r = length data mod 4"
  have "r < 4" "r \<noteq> 0" using assms by (simp_all add: r_def)
  then have "(4 - r) mod 4 \<noteq> 0" by (cases "r = 1"; cases "r = 2"; cases "r = 3") auto
  then have nz: "(4 - length data mod 4) mod 4 \<noteq> 0" by (simp add: r_def)
  from z85_frame_decoded [of data] nz show ?thesis
    unfolding z85_padding_def by blast
qed

theorem z85_padding_recorded_and_removed_witness:
  "length [1, 2, 3 :: byte] mod 4 \<noteq> 0
   \<and> frame_parts (encode_z85 [1, 2, 3]) = [''Z85'', ''1'', ''0rJu6'']
   \<and> (\<exists>digits groups.
        frame_parts (encode_z85 [1, 2, 3])
          = [''Z85'', str_nat ((4 - length [1, 2, 3 :: byte] mod 4) mod 4), digits]
        \<and> z85_decode_chunks digits = Inr groups
        \<and> decode_z85 (encode_z85 [1, 2, 3]) = Inr [1, 2, 3])"
proof -
  have h: "length [1, 2, 3 :: byte] mod 4 \<noteq> 0" by simp
  have p: "frame_parts (encode_z85 [1, 2, 3]) = [''Z85'', ''1'', ''0rJu6'']"
    by (simp add: enc123 frame_parts_def numeral_2_eq_2)
  from z85_padding_recorded_and_removed [OF h]
  have "\<exists>digits groups.
        frame_parts (encode_z85 [1, 2, 3])
          = [''Z85'', str_nat ((4 - length [1, 2, 3 :: byte] mod 4) mod 4), digits]
        \<and> z85_decode_chunks digits = Inr groups
        \<and> decode_z85 (encode_z85 [1, 2, 3]) = Inr [1, 2, 3]"
    by (elim exE conjE) (intro exI conjI, assumption, assumption, simp)
  with h p show ?thesis by blast
qed

section \<open>Statistics of a sequence of calls\<close>

lemma compress_data_result:
  assumes "compress_data B F T elapsed st data m level = Inr ((s, md), st')"
  shows "st' = update_stats F st (method_name md) (length data) (utf8_len s)
                 (mul_f F elapsed (of_rat_f F 1000))"
  using assms
  by (auto simp: compress_data_def then_ok_def Let_def split: prod.splits sum.splits if_splits)

lemma update_stats_fields:
  "files_processed (update_stats F st m a b t) = files_processed st + 1"
  "total_original_size (update_stats F st m a b t) = total_original_size st + a"
  "total_compressed_size (update_stats F st m a b t) = total_compressed_size st + b"
  "total_processing_time (update_stats F st m a b t) = add_f F (total_processing_time st) t"
  by (simp_all add: update_stats_def Let_def)

lemma update_stats_usage:
  "usage (update_stats F st m a b t) k = (if k = m then usage st m + 1 else usage st k)"
  by (auto simp: update_stats_def usage_def Let_def dom_def split: option.splits)

lemma update_stats_dom:
  "dom (method_usage (update_stats F st m a b t)) = insert m (dom (method_usage st))"
  by (auto simp: update_stats_def Let_def)

lemma floor_numeral_divide:
  "\<lfloor>(numeral a :: rat) / numeral b\<rfloor> = numeral a div numeral b"
  using floor_divide_of_int_eq [of "numeral a" "numeral b", where ?'a = rat] by simp

text \<open>The statistics after a run from any starting statistics.\<close>

lemma run_calls_stats:
  "run_calls B F st0 calls = (outs, st) \<Longrightarrow>
     files_processed st = files_processed st0 + length (completed outs)
     \<and> total_original_size st
         = total_original_size st0 + (\<Sum>c\<leftarrow>completed_calls calls outs. length (call_data c))
     \<and> total_compressed_size st
         = total_compressed_size st0 + (\<Sum>r\<leftarrow>completed outs. utf8_len (fst r))
     \<and> total_processing_time st
         = foldl (add_f F) (total_processing_time st0)
             (map (call_time F) (completed_calls calls outs))
     \<and> (\<forall>m. usage st m
            = usage st0 m + count_list (map (\<lambda>r. method_name (snd r)) (completed outs)) m)
     \<and> dom (method_usage st)
         = dom (method_usage st0) \<union> set (map (\<lambda>r. method_name (snd r)) (completed outs))"
proof (induction calls arbitrary: st0 outs)
  case Nil
  then show ?case by simp
next
  case (Cons c cs)
  show ?case
  proof (cases "compress_data B F (call_trials c) (call_elapsed c) st0
                  (call_data c) (call_method c) (call_level c)")
    case (Inl e)
    with Cons.prems obtain outs' where
      outs: "outs = Inl e # outs'" and rest: "run_calls B F st0 cs = (outs', st)"
      by (auto split: prod.splits)
    from Cons.IH [OF rest] show ?thesis by (simp add: outs)
  next
    case (Inr res)
    obtain s md st1 where res: "res = ((s, md), st1)" by (cases res) auto
    from Inr Cons.prems obtain outs' where
      outs: "outs = Inr (s, md) # outs'" and rest: "run_calls B F st1 cs = (outs', st)"
      by (auto simp: res split: prod.splits)
    have st1: "st1 = update_stats F st0 (method_name md) (length (call_data c)) (utf8_len s)
                 (call_time F c)"
      using Inr unfolding res call_time_def by (rule compress_data_result)
    from Cons.IH [OF rest] show ?thesis
      by (simp add: outs st1 update_stats_fields update_stats_usage update_stats_dom)
  qed
qed

lemma run_calls_append:
  "run_calls B F st0 (xs @ ys)
     = (case run_calls B F st0 xs of
          (outs1, st1) \<Rightarrow>
            (case run_calls B F st1 ys of (outs2, st2) \<Rightarrow> (outs1 @ outs2, st2)))"
  by (induction xs arbitrary: st0) (auto split: prod.splits sum.splits)

lemma foldl_add_monotone:
  "float_add_monotone F \<Longrightarrow> \<forall>t\<in>set ts. of_rat_f F 0 \<le> t \<Longrightarrow> x \<le> foldl (add_f F) x ts"
proof (induction ts arbitrary: x)
  case Nil
  show ?case by simp
next
  case (Cons t ts)
  from Cons.prems have "x \<le> add_f F x t" by (simp add: float_add_monotone_def)
  also from Cons.prems have "add_f F x t \<le> foldl (add_f F) (add_f F x t) ts"
    by (intro Cons.IH) simp_all
  finally show ?case by simp
qed

lemma init_stats_fields:
  "files_processed (init_stats F) = 0" "total_original_size (init_stats F) = 0"
  "total_compressed_size (init_stats F) = 0" "total_processing_time (init_stats F) = of_rat_f F 0"
  "usage (init_stats F) m = 0" "dom (method_usage (init_stats F)) = {}"
  by (simp_all add: init_stats_def usage_def)

text \<open>
  Claim C9 says that every total is non-decreasing. \<open>total_processing_time\<close> is not:
  the time of a call is a difference of two readings of \<open>time.time()\<close>, the wall clock,
  which can be set back. Two calls complete here; after the first the total is 1 ms,
  after the second, measured as -2 ms, it is -1 ms.
\<close>

theorem processing_time_total_decreases:
  "map isl (fst (run_calls demo_backends exact_floats (init_stats exact_floats)
                  [demo_call1, demo_call_clock_back])) = [False, False]
   \<and> total_processing_time (snd (run_calls demo_backends exact_floats
         (init_stats exact_floats) [demo_call1])) = 1
   \<and> total_processing_time (snd (run_calls demo_backends exact_floats
         (init_stats exact_floats) [demo_call1, demo_call_clock_back])) = - 1"
  by (simp add: demo_call1_def demo_call_clock_back_def compress_data_def
      compress_dispatch_def gzip_then_base64_def demo_backends_def exact_floats_def
      int_truediv_def then_ok_def Let_def floor_numeral_divide update_stats_fields
      init_stats_def split: prod.splits)

text \<open>
  Claim C9 as amended. Take any sequence of calls on a fresh engine, some of which may
  raise, cut at any point into the calls made so far and the calls that follow. At the
  end (and, with nothing following, at the cut) \<open>files_processed\<close> is the number of
  completed calls, \<open>total_original_size\<close> the sum of their payload lengths,
  \<open>total_compressed_size\<close> the sum of the byte lengths of the strings they returned,
  \<open>total_processing_time\<close> the float sum of their times in call order, and
  \<open>method_usage\<close> counts, for exactly the methods recorded in their metadata, how many
  of them recorded it: every completed call adds its own deltas and a call that raises
  adds nothing. From the cut to the end the three integer totals and every
  \<open>method_usage\<close> count do not decrease; the total of the times does not decrease when
  the times measured after the cut are non-negative and float addition of a non-negative
  value does not round below its first argument. In the model only \<open>compress_data\<close>
  returns statistics: \<open>decompress_data\<close> and \<open>determine_optimal_method\<close> neither take
  nor return them.
\<close>

theorem stats_consistency:
  assumes run: "run_calls B F (init_stats F) (pre @ post) = (outs, st)"
  shows "\<exists>outs1 st1 outs2.
      run_calls B F (init_stats F) pre = (outs1, st1)
      \<and> run_calls B F st1 post = (outs2, st)
      \<and> outs = outs1 @ outs2
      \<and> files_processed st = length (completed outs)
      \<and> total_original_size st
          = (\<Sum>c\<leftarrow>completed_calls (pre @ post) outs. length (call_data c))
      \<and> total_compressed_size st = (\<Sum>r\<leftarrow>completed outs. utf8_len (fst r))
      \<and> total_processing_time st
          = float_sum F (map (call_time F) (completed_calls (pre @ post) outs))
      \<and> (\<forall>m. usage st m = count_list (map (\<lambda>r. method_name (snd r)) (completed outs)) m)
      \<and> dom (method_usage st) = set (map (\<lambda>r. method_name (snd r)) (completed outs))
      \<and> files_processed st1 \<le> files_processed st
      \<and> total_original_size st1 \<le> total_original_size st
      \<and> total_compressed_size st1 \<le> total_compressed_size st
      \<and> (\<forall>m. usage st1 m \<le> usage st m)
      \<and> (float_add_monotone F
           \<and> (\<forall>c\<in>set (completed_calls post outs2). of_rat_f F 0 \<le> call_time F c)
           \<longrightarrow> total_processing_time st1 \<le> total_processing_time st)"
proof -
  obtain outs1 st1 where pre: "run_calls B F (init_stats F) pre = (outs1, st1)"
    by (cases "run_calls B F (init_stats F) pre") auto
  obtain outs2 st2 where post: "run_calls B F st1 post = (outs2, st2)"
    by (cases "run_calls B F st1 post") auto
  from run pre post have outs: "outs = outs1 @ outs2" and st: "st2 = st"
    by (simp_all add: run_calls_append)
  note whole = run_calls_stats [OF run, unfolded init_stats_fields]
  note tail = run_calls_stats [OF post [unfolded st]]
  have post': "run_calls B F st1 post = (outs2, st)" using post st by simp
  have f: "files_processed st = length (completed outs)" using whole by simp
  have o: "total_original_size st
      = (\<Sum>c\<leftarrow>completed_calls (pre @ post) outs. length (call_data c))"
    using whole by simp
  have c: "total_compressed_size st = (\<Sum>r\<leftarrow>completed outs. utf8_len (fst r))"
    using whole by simp
  have t: "total_processing_time st
      = float_sum F (map (call_time F) (completed_calls (pre @ post) outs))"
    using whole by (simp add: float_sum_def)
  have u: "\<forall>m. usage st m = count_list (map (\<lambda>r. method_name (snd r)) (completed outs)) m"
    using whole by simp
  have d: "dom (method_usage st) = set (map (\<lambda>r. method_name (snd r)) (completed outs))"
    using whole by simp
  have m1: "files_processed st1 \<le> files_processed st" using tail by simp
  have m2: "total_original_size st1 \<le> total_original_size st" using tail by simp
  have m3: "total_compressed_size st1 \<le> total_compressed_size st" using tail by simp
  have m4: "\<forall>m. usage st1 m \<le> usage st m" using tail by simp
  have m5: "float_add_monotone F
      \<and> (\<forall>c\<in>set (completed_calls post outs2). of_rat_f F 0 \<le> call_time F c)
      \<longrightarrow> total_processing_time st1 \<le> total_processing_time st"
  proof (intro impI, elim conjE)
    assume "float_add_monotone F"
      and "\<forall>c\<in>set (completed_calls post outs2). of_rat_f F 0 \<le> call_time F c"
    then have "total_processing_time st1
        \<le> foldl (add_f F) (total_processing_time st1)
             (map (call_time F) (completed_calls post outs2))"
      by (intro foldl_add_monotone) auto
    with tail show "total_processing_time st1 \<le> total_processing_time st" by simp
  qed
  show ?thesis
    by (rule exI [of _ outs1], rule exI [of _ st1], rule exI [of _ outs2])
      (intro conjI pre post' outs f o c t u d m1 m2 m3 m4 m5)
qed


theorem stats_consistency_witness:
  "\<exists>outs st.
     run_calls demo_backends exact_floats (init_stats exact_floats)
       ([demo_call1, demo_call_empty] @ [demo_call2]) = (outs, st)
     \<and> completed_calls ([demo_call1, demo_call_empty] @ [demo_call2]) outs
         = [demo_call1, demo_call2]
     \<and> map (\<lambda>r. method_name (snd r)) (completed outs) = [''z85'', ''gzip_base64'']
     \<and> map fst (completed outs) = [''Z85:1:0rJu6'', ''07'']
     \<and> files_processed st = 2
     \<and> total_original_size st = 4
     \<and> total_compressed_size st = 13
     \<and> total_processing_time st = 3
     \<and> usage st ''z85'' = 1 \<and> usage st ''gzip_base64'' = 1 \<and> usage st ''hybrid'' = 0
     \<and> dom (method_usage st) = {''z85'', ''gzip_base64''}"
proof -
  define R where "R = run_calls demo_backends exact_floats (init_stats exact_floats)
       ([demo_call1, demo_call_empty] @ [demo_call2])"
  obtain outs st where run: "R = (outs, st)" by (cases R)
  have ev: "completed_calls ([demo_call1, demo_call_empty] @ [demo_call2]) (fst R)
         = [demo_call1, demo_call2]
      \<and> map (\<lambda>r. method_name (snd r)) (completed (fst R)) = [''z85'', ''gzip_base64'']
      \<and> map fst (completed (fst R)) = [''Z85:1:0rJu6'', ''07'']"
    unfolding R_def
    by (simp add: demo_call1_def demo_call2_def demo_call_empty_def compress_data_def
        compress_dispatch_def gzip_then_base64_def demo_backends_def exact_floats_def
        int_truediv_def then_ok_def Let_def floor_numeral_divide enc123 b16encode_def
        b16_alphabet_def split: prod.splits)
  from ev run have calls: "completed_calls ([demo_call1, demo_call_empty] @ [demo_call2]) outs
         = [demo_call1, demo_call2]"
    and names: "map (\<lambda>r. method_name (snd r)) (completed outs) = [''z85'', ''gzip_base64'']"
    and strings: "map fst (completed outs) = [''Z85:1:0rJu6'', ''07'']"
    by simp_all
  have "length (completed outs) = length (map (\<lambda>r. method_name (snd r)) (completed outs))"
    by simp
  then have two: "length (completed outs) = 2" unfolding names by simp
  note run' = run [unfolded R_def]
  note th = stats_consistency [OF run']
  have f: "files_processed st = length (completed outs)"
    using th by (elim exE conjE)
  have o: "total_original_size st
          = (\<Sum>c\<leftarrow>completed_calls ([demo_call1, demo_call_empty] @ [demo_call2]) outs.
               length (call_data c))"
    using th by (elim exE conjE)
  have c: "total_compressed_size st = (\<Sum>r\<leftarrow>completed outs. utf8_len (fst r))"
    using th by (elim exE conjE)
  have t: "total_processing_time st
      = float_sum exact_floats (map (call_time exact_floats)
          (completed_calls ([demo_call1, demo_call_empty] @ [demo_call2]) outs))"
    using th by (elim exE conjE)
  have u: "\<forall>m. usage st m = count_list (map (\<lambda>r. method_name (snd r)) (completed outs)) m"
    using th by (elim exE conjE)
  have d: "dom (method_usage st) = set (map (\<lambda>r. method_name (snd r)) (completed outs))"
    using th by (elim exE conjE)
  have ff: "files_processed st = 2" using f two by simp
  have oo: "total_original_size st = 4"
    unfolding o calls by (simp add: demo_call1_def demo_call2_def)
  have "(\<Sum>r\<leftarrow>completed outs. utf8_len (fst r))
      = sum_list (map utf8_len (map fst (completed outs)))"
    by (simp add: comp_def)
  then have cc: "total_compressed_size st = 13"
    unfolding c strings by (simp add: utf8_len_def)
  have tt: "total_processing_time st = 3"
    unfolding t calls
    by (simp add: float_sum_def call_time_def exact_floats_def demo_call1_def demo_call2_def)
  have u1: "usage st ''z85'' = 1" and u2: "usage st ''gzip_base64'' = 1"
    and u3: "usage st ''hybrid'' = 0"
    using u unfolding names by simp_all
  have dd: "dom (method_usage st) = {''z85'', ''gzip_base64''}"
    unfolding d names by simp
  show ?thesis
    by (rule exI [of _ outs], rule exI [of _ st])
      (intro conjI run' calls names strings ff oo cc tt u1 u2 u3 dd)
qed

section \<open>The hybrid benchmarker\<close>

lemma max_by_first_greatest:
  "\<exists>pre post. b # xs = pre @ max_by key b xs # post
     \<and> (\<forall>x\<in>set pre. key x < key (max_by key b xs))
     \<and> (\<forall>x\<in>set post. key x \<le> key (max_by key b xs))"
proof (induction xs arbitrary: b)
  case Nil
  show ?case by (intro exI [of _ "[]"]) simp
next
  case (Cons x xs)
  show ?case
  proof (cases "key b < key x")
    case True
    from Cons.IH [of x] obtain pre post where
      split: "x # xs = pre @ max_by key x xs # post"
      and less: "\<forall>y\<in>set pre. key y < key (max_by key x xs)"
      and le: "\<forall>y\<in>set post. key y \<le> key (max_by key x xs)"
      by blast
    have "key x \<le> key (max_by key x xs)"
    proof (cases pre)
      case Nil
      with split have "max_by key x xs = x" by (metis append_Nil list.inject)
      then show ?thesis by simp
    next
      case (Cons p ps)
      with split have "p = x" by (metis append_Cons list.inject)
      with Cons less show ?thesis by (simp add: less_imp_le)
    qed
    with True have bw: "key b < key (max_by key x xs)" by simp
    have eq: "max_by key b (x # xs) = max_by key x xs" using True by simp
    have "b # x # xs = (b # pre) @ max_by key x xs # post
        \<and> (\<forall>y\<in>set (b # pre). key y < key (max_by key x xs))
        \<and> (\<forall>y\<in>set post. key y \<le> key (max_by key x xs))"
      using split less le bw by simp
    then show ?thesis unfolding eq by blast
  next
    case False
    have eq: "max_by key b (x # xs) = max_by key b xs" using False by simp
    from Cons.IH [of b] obtain pre post where
      split: "b # xs = pre @ max_by key b xs # post"
      and less: "\<forall>y\<in>set pre. key y < key (max_by key b xs)"
      and le: "\<forall>y\<in>set post. key y \<le> key (max_by key b xs)"
      by blast
    show ?thesis
    proof (cases pre)
      case Nil
      with split have w: "max_by key b xs = b" and p: "post = xs"
        by (metis append_Nil list.inject)+
      have "b # x # xs = [] @ b # (x # xs)
          \<and> (\<forall>y\<in>set []. key y < key b)
          \<and> (\<forall>y\<in>set (x # xs). key y \<le> key b)"
        using False w p le by auto
      then show ?thesis unfolding eq w by blast
    next
      case (Cons p ps)
      with split have pb: "p = b" and rest: "xs = ps @ max_by key b xs # post"
        by (metis append_Cons list.inject)+
      from Cons pb less have "key b < key (max_by key b xs)" by simp
      with False have xw: "key x < key (max_by key b xs)" by simp
      have "b # x # xs = (b # x # ps) @ max_by key b xs # post
          \<and> (\<forall>y\<in>set (b # x # ps). key y < key (max_by key b xs))
          \<and> (\<forall>y\<in>set post. key y \<le> key (max_by key b xs))"
        using Cons pb rest less le xw by auto
      then show ?thesis unfolding eq by blast
    qed
  qed
qed

lemma hybrid_candidates_sound:
  "(m, r, sz, sc) \<in> set (hybrid_candidates B F T data ms) \<Longrightarrow>
     m \<in> set ms \<and> hybrid_trial B data m = Some (Inr r) \<and> sz = utf8_len r
     \<and> hybrid_score F sz (T m) = Inr sc"
  by (induction ms) (auto split: option.splits sum.splits)

lemma hybrid_methods_to_try_order:
  "subseq (hybrid_methods_to_try B data)
     [''gzip_base64'', ''deflate_base64'', ''brotli_base64'', ''lz4_base64'', ''z85'']"
  by (simp add: hybrid_methods_to_try_def)

lemma hybrid_score_Inr:
  "hybrid_score F sz t = Inr sc \<Longrightarrow>
     sc = div_f F (of_rat_f F 1)
            (add_f F (mul_f F (of_rat_f F (of_nat sz)) (of_rat_f F (8 / 10)))
               (mul_f F (mul_f F t (of_rat_f F 1000)) (of_rat_f F (2 / 10))))"
  by (auto simp: hybrid_score_def float_truediv_def split: if_splits)

lemma hybrid_candidates_names:
  "map fst (hybrid_candidates B F T data ms) = filter (candidate_succeeds B F T data) ms"
  by (induction ms) (auto simp: candidate_succeeds_def split: option.splits sum.splits)

lemma hybrid_candidates_complete:
  "m \<in> set ms \<Longrightarrow> hybrid_trial B data m = Some (Inr r) \<Longrightarrow>
   hybrid_score F (utf8_len r) (T m) = Inr sc \<Longrightarrow>
     (m, r, utf8_len r, sc) \<in> set (hybrid_candidates B F T data ms)"
  by (induction ms) (auto split: option.splits sum.splits)

lemma demo_hybrid_candidates:
  "hybrid_candidates demo_backends_no_deflate exact_floats (\<lambda>m. 0) [1, 2, 3]
     (hybrid_methods_to_try demo_backends_no_deflate [1, 2, 3])
   = [(''gzip_base64'', ''010203'', 6, 5 / 24),
      (''brotli_base64'', ''010203'', 6, 5 / 24),
      (''z85'', ''Z85:1:0rJu6'', 11, 5 / 44)]"
  by (simp add: hybrid_methods_to_try_def hybrid_trial_def demo_backends_no_deflate_def
      demo_backends_def exact_floats_def gzip_then_base64_def deflate_then_base64_def
      brotli_then_base64_def then_ok_def b16encode_def b16_alphabet_def utf8_len_def
      hybrid_score_def float_truediv_def enc123)

lemma demo_deflate_fails:
  "hybrid_trial demo_backends_no_deflate [1, 2, 3] ''deflate_base64'' = Some (Inl BackendError)"
  by (simp add: hybrid_trial_def demo_backends_no_deflate_def demo_backends_def
      deflate_then_base64_def then_ok_def)

text \<open>
  Claim C8: the candidates are tried in the enumeration order gzip, deflate, brotli, lz4,
  z85; the scored candidates are exactly the tried methods that succeed, in that order,
  each with the string it produced, its size in bytes and the score
  \<open>1 / (size * 0.8 + elapsed_ms * 0.2)\<close>; the winner has the highest score, and among
  candidates of equal highest score it is the earliest: every candidate before the winner
  scores strictly less, every candidate after it scores at most as much. The result is a
  function of the payload, the backends and the measured times, so equal sizes and times
  give the same winner.
\<close>

theorem hybrid_selects_first_best:
  assumes cands: "hybrid_candidates B F T data (hybrid_methods_to_try B data) = cands"
    and nonempty: "cands \<noteq> []"
  shows "\<exists>pre m r sz sc post.
      cands = pre @ (m, r, sz, sc) # post
      \<and> hybrid_compress B F T data = ''HYBRID:'' @ m @ '':'' @ r
      \<and> (\<forall>c\<in>set pre. cand_score c < sc)
      \<and> (\<forall>c\<in>set post. cand_score c \<le> sc)
      \<and> subseq (hybrid_methods_to_try B data)
           [''gzip_base64'', ''deflate_base64'', ''brotli_base64'', ''lz4_base64'', ''z85'']
      \<and> map fst cands = filter (candidate_succeeds B F T data) (hybrid_methods_to_try B data)
      \<and> (\<forall>m'\<in>set (hybrid_methods_to_try B data). \<forall>r' sc'.
            hybrid_trial B data m' = Some (Inr r')
            \<and> hybrid_score F (utf8_len r') (T m') = Inr sc'
            \<longrightarrow> (m', r', utf8_len r', sc') \<in> set cands)
      \<and> (\<forall>(m', r', sz', sc')\<in>set cands.
            hybrid_trial B data m' = Some (Inr r') \<and> sz' = utf8_len r'
            \<and> sc' = div_f F (of_rat_f F 1)
                  (add_f F (mul_f F (of_rat_f F (of_nat sz')) (of_rat_f F (8 / 10)))
                     (mul_f F (mul_f F (T m') (of_rat_f F 1000)) (of_rat_f F (2 / 10)))))"
proof -
  from nonempty obtain c cs where cons: "cands = c # cs" by (cases cands) auto
  obtain m r sz sc where best: "max_by cand_score c cs = (m, r, sz, sc)"
    by (cases "max_by cand_score c cs") auto
  from max_by_first_greatest [of c cs cand_score] obtain pre post where
    split: "c # cs = pre @ max_by cand_score c cs # post"
    and less: "\<forall>x\<in>set pre. cand_score x < cand_score (max_by cand_score c cs)"
    and le: "\<forall>x\<in>set post. cand_score x \<le> cand_score (max_by cand_score c cs)"
    by blast
  have score: "cand_score (m, r, sz, sc) = sc" by (simp add: cand_score_def)
  have out: "hybrid_compress B F T data = ''HYBRID:'' @ m @ '':'' @ r"
    using cands cons best by (simp add: hybrid_compress_def)
  have order: "subseq (hybrid_methods_to_try B data)
      [''gzip_base64'', ''deflate_base64'', ''brotli_base64'', ''lz4_base64'', ''z85'']"
    by (rule hybrid_methods_to_try_order)
  have names: "map fst cands
      = filter (candidate_succeeds B F T data) (hybrid_methods_to_try B data)"
    using hybrid_candidates_names [of B F T data "hybrid_methods_to_try B data"] cands by simp
  have complete: "\<forall>m'\<in>set (hybrid_methods_to_try B data). \<forall>r' sc'.
      hybrid_trial B data m' = Some (Inr r')
      \<and> hybrid_score F (utf8_len r') (T m') = Inr sc'
      \<longrightarrow> (m', r', utf8_len r', sc') \<in> set cands"
    using hybrid_candidates_complete [of _ "hybrid_methods_to_try B data" B data _ F T] cands
    by blast
  have scored: "\<forall>(m', r', sz', sc')\<in>set cands.
      hybrid_trial B data m' = Some (Inr r') \<and> sz' = utf8_len r'
      \<and> sc' = div_f F (of_rat_f F 1)
            (add_f F (mul_f F (of_rat_f F (of_nat sz')) (of_rat_f F (8 / 10)))
               (mul_f F (mul_f F (T m') (of_rat_f F 1000)) (of_rat_f F (2 / 10))))"
  proof (clarify, intro conjI)
    fix m' r' sz' sc'
    assume mem: "(m', r', sz', sc') \<in> set cands"
    from mem cands have "(m', r', sz', sc')
        \<in> set (hybrid_candidates B F T data (hybrid_methods_to_try B data))" by simp
    note s = hybrid_candidates_sound [OF this]
    from s show "hybrid_trial B data m' = Some (Inr r')" by blast
    from s show "sz' = utf8_len r'" by blast
    from s have "hybrid_score F sz' (T m') = Inr sc'" by blast
    then show "sc' = div_f F (of_rat_f F 1)
            (add_f F (mul_f F (of_rat_f F (of_nat sz')) (of_rat_f F (8 / 10)))
               (mul_f F (mul_f F (T m') (of_rat_f F 1000)) (of_rat_f F (2 / 10))))"
      by (rule hybrid_score_Inr)
  qed
  have split': "cands = pre @ (m, r, sz, sc) # post"
    using split unfolding best cons [symmetric] .
  have less': "\<forall>c\<in>set pre. cand_score c < sc"
    using less unfolding best score .
  have le': "\<forall>c\<in>set post. cand_score c \<le> sc"
    using le unfolding best score .
  show ?thesis
    by (rule exI [of _ pre], rule exI [of _ m], rule exI [of _ r], rule exI [of _ sz],
        rule exI [of _ sc], rule exI [of _ post])
      (intro conjI split' out less' le' order names complete scored)
qed

theorem hybrid_selects_first_best_witness:
  "hybrid_candidates demo_backends_no_deflate exact_floats (\<lambda>m. 0) [1, 2, 3]
     (hybrid_methods_to_try demo_backends_no_deflate [1, 2, 3])
   = [(''gzip_base64'', ''010203'', 6, 5 / 24),
      (''brotli_base64'', ''010203'', 6, 5 / 24),
      (''z85'', ''Z85:1:0rJu6'', 11, 5 / 44)]
   \<and> hybrid_trial demo_backends_no_deflate [1, 2, 3] ''deflate_base64''
       = Some (Inl BackendError)
   \<and> hybrid_compress demo_backends_no_deflate exact_floats (\<lambda>m. 0) [1, 2, 3]
       = ''HYBRID:gzip_base64:010203''
   \<and> (\<exists>pre m r sz sc post.
         [(''gzip_base64'', ''010203'', 6, 5 / 24),
          (''brotli_base64'', ''010203'', 6, 5 / 24),
          (''z85'', ''Z85:1:0rJu6'', 11, 5 / 44 :: rat)] = pre @ (m, r, sz, sc) # post
         \<and> hybrid_compress demo_backends_no_deflate exact_floats (\<lambda>m. 0) [1, 2, 3]
             = ''HYBRID:'' @ m @ '':'' @ r
         \<and> (\<forall>c\<in>set pre. cand_score c < sc)
         \<and> (\<forall>c\<in>set post. cand_score c \<le> sc))"
proof -
  define L :: "rat candidate list" where
    "L = [(''gzip_base64'', ''010203'', 6, 5 / 24),
          (''brotli_base64'', ''010203'', 6, 5 / 24),
          (''z85'', ''Z85:1:0rJu6'', 11, 5 / 44)]"
  define out where
    "out = hybrid_compress demo_backends_no_deflate exact_floats (\<lambda>m. 0) [1, 2, 3]"
  have c: "hybrid_candidates demo_backends_no_deflate exact_floats (\<lambda>m. 0) [1, 2, 3]
     (hybrid_methods_to_try demo_backends_no_deflate [1, 2, 3]) = L"
    unfolding L_def by (rule demo_hybrid_candidates)
  have ne: "L \<noteq> []" by (simp add: L_def)
  have o: "out = ''HYBRID:gzip_base64:010203''"
    unfolding out_def by (simp add: hybrid_compress_def demo_hybrid_candidates cand_score_def)
  from hybrid_selects_first_best [OF c ne, folded out_def]
  have ex: "\<exists>pre m r sz sc post. L = pre @ (m, r, sz, sc) # post
         \<and> out = ''HYBRID:'' @ m @ '':'' @ r
         \<and> (\<forall>c\<in>set pre. cand_score c < sc)
         \<and> (\<forall>c\<in>set post. cand_score c \<le> sc)"
    by (elim exE conjE) (intro exI conjI; assumption)
  show ?thesis
    by (rule conjI [OF c [unfolded L_def] conjI [OF demo_deflate_fails
          conjI [OF o [unfolded out_def] ex [unfolded L_def out_def]]]])
qed

end
